theory Spec2Isabelle
  imports Main "HOL-Library.Multiset"
begin

section \<open>Data model\<close>

text \<open>
  A timestamp is a JavaScript \<open>Date\<close>, read as its number of milliseconds since the epoch.
  Every handler receives the clock reading of its call as an explicit argument \<open>now\<close>.
\<close>

type_synonym timestamp = int

text \<open>
  The \<open>Todo\<close> row of \<open>todosTable\<close>. The column \<open>id\<close> is written \<open>id'\<close>, since \<open>id\<close> is the
  identity function of HOL. A nullable text column is a \<open>string option\<close>, \<open>None\<close> being SQL
  \<open>NULL\<close> (JavaScript \<open>null\<close>).
\<close>

record Todo =
  id' :: int
  title :: string
  description :: "string option"
  completed :: bool
  created_at :: timestamp
  updated_at :: timestamp

text \<open>
  An optional, nullable property of an input object (\<open>description?: string | null\<close>):
  left out (\<open>undefined\<close>), \<open>null\<close>, or a value.
\<close>

datatype 'a nullish = Undefined | Null | Val 'a

record CreateTodoInput =
  c_title :: string
  c_description :: "string nullish"

record UpdateTodoInput =
  u_id :: int
  u_title :: "string option"
  u_description :: "string nullish"
  u_completed :: "bool option"

record ToggleTodoInput =
  t_id :: int

record DeleteTodoInput =
  d_id :: int

text \<open>A thrown JavaScript \<open>Error\<close>, with its message.\<close>

datatype error = Error string

section \<open>The store\<close>

text \<open>
  Modelled from the spec: the table declaration \<open>db/schema.ts\<close> and the connection \<open>db\<close> are
  not among the sources. The spec (sections 3 and 6) gives a single table whose \<open>id\<close> is an
  auto-assigned integer primary key, whose \<open>description\<close> is nullable, and whose
  \<open>created_at\<close> and \<open>updated_at\<close> default to the current time. The table is the list of its
  rows in insertion order, and \<open>next_id\<close> is the sequence that assigns the key of the next
  insert; it only ever counts upwards.
\<close>

record Store =
  rows :: "Todo list"
  next_id :: int

definition empty_store :: Store where
  "empty_store = \<lparr>rows = [], next_id = 1\<rparr>"

text \<open>\<open>db.insert(todosTable).values({title, description, completed}).returning().execute()\<close>\<close>

definition db_insert_returning ::
  "Store \<Rightarrow> timestamp \<Rightarrow> string \<Rightarrow> string option \<Rightarrow> bool \<Rightarrow> Todo list \<times> Store" where
  "db_insert_returning s now t d c =
     (let r = \<lparr>id' = next_id s, title = t, description = d, completed = c,
                created_at = now, updated_at = now\<rparr>
      in ([r], s\<lparr>rows := rows s @ [r], next_id := next_id s + 1\<rparr>))"

text \<open>\<open>db.select().from(todosTable).where(eq(todosTable.id, i)).execute()\<close>\<close>

definition db_select_where_id :: "Store \<Rightarrow> int \<Rightarrow> Todo list" where
  "db_select_where_id s i = filter (\<lambda>r. id' r = i) (rows s)"

text \<open>\<open>db.update(todosTable).set(...).where(eq(todosTable.id, i)).returning().execute()\<close>,
  the assignment of \<open>set\<close> given as a function on rows.\<close>

definition db_update_where_id_returning ::
  "Store \<Rightarrow> (Todo \<Rightarrow> Todo) \<Rightarrow> int \<Rightarrow> Todo list \<times> Store" where
  "db_update_where_id_returning s f i =
     (map f (filter (\<lambda>r. id' r = i) (rows s)),
      s\<lparr>rows := map (\<lambda>r. if id' r = i then f r else r) (rows s)\<rparr>)"

text \<open>\<open>db.delete(todosTable).where(eq(todosTable.id, i)).execute()\<close>: the result carries
  \<open>rowCount\<close>, a number or \<open>null\<close> in the driver's type.\<close>

record QueryResult =
  rowCount :: "nat option"

definition db_delete_where_id :: "Store \<Rightarrow> int \<Rightarrow> QueryResult \<times> Store" where
  "db_delete_where_id s i =
     (\<lparr>rowCount = Some (length (filter (\<lambda>r. id' r = i) (rows s)))\<rparr>,
      s\<lparr>rows := filter (\<lambda>r. id' r \<noteq> i) (rows s)\<rparr>)"

section \<open>JavaScript operators the handlers use\<close>

text \<open>Truthiness of a \<open>string | null | undefined\<close>: only a non-empty string is truthy.\<close>

definition truthy :: "string nullish \<Rightarrow> bool" where
  "truthy d = (case d of Undefined \<Rightarrow> False | Null \<Rightarrow> False | Val s \<Rightarrow> s \<noteq> [])"

text \<open>\<open>d || null\<close>\<close>

definition or_null :: "string nullish \<Rightarrow> string nullish" where
  "or_null d = (if truthy d then d else Null)"

text \<open>The value a nullable text column receives: \<open>undefined\<close> takes the column default,
  which is \<open>NULL\<close>.\<close>

definition to_column :: "string nullish \<Rightarrow> string option" where
  "to_column d = (case d of Undefined \<Rightarrow> None | Null \<Rightarrow> None | Val s \<Rightarrow> Some s)"

text \<open>\<open>rowCount ?? 0\<close>\<close>

definition nullish_coalesce :: "nat option \<Rightarrow> nat \<Rightarrow> nat" where
  "nullish_coalesce v d = (case v of None \<Rightarrow> d | Some n \<Rightarrow> n)"

text \<open>The decimal text of an integer, as a template literal prints a \<open>number\<close> that holds
  an integer (below \<open>10^21\<close> in magnitude, which every key of the table is).\<close>

definition digit_char :: "nat \<Rightarrow> char" where
  "digit_char d = ''0123456789'' ! d"

function show_nat :: "nat \<Rightarrow> string" where
  "show_nat n = (if n < 10 then [digit_char n] else show_nat (n div 10) @ [digit_char (n mod 10)])"
  by pat_completeness auto
termination
  by (relation "measure (\<lambda>n. n)") auto

definition show_int :: "int \<Rightarrow> string" where
  "show_int i = (if i < 0 then CHR ''-'' # show_nat (nat (- i)) else show_nat (nat i))"

section \<open>Server handlers\<close>

text \<open>
  Each handler takes the store and the clock reading and returns what the promise settles
  to (\<open>Inl\<close> a thrown error, \<open>Inr\<close> the value) together with the store afterwards. The
  \<open>catch\<close> blocks log and rethrow, so they change neither. The store of the model never
  fails by itself. Where a handler reads \<open>result[0]\<close>, the list is not empty: the insert
  returns its row, and the update returns the rows the select before it has found.
\<close>

text \<open>\<open>createTodo\<close> (handlers/create\_todo.ts)\<close>

definition createTodo :: "Store \<Rightarrow> timestamp \<Rightarrow> CreateTodoInput \<Rightarrow> (error + Todo) \<times> Store" where
  "createTodo s now input =
     (let (result, s') = db_insert_returning s now
            (c_title input) (to_column (or_null (c_description input))) False;
          todo = hd result
      in (Inr todo, s'))"

text \<open>\<open>toggleTodo\<close> (handlers/toggle\_todo.ts)\<close>

definition toggle_not_found :: "int \<Rightarrow> string" where
  "toggle_not_found i = ''Todo with id '' @ show_int i @ '' not found''"

definition toggleTodo :: "Store \<Rightarrow> timestamp \<Rightarrow> ToggleTodoInput \<Rightarrow> (error + Todo) \<times> Store" where
  "toggleTodo s now input =
     (let existingTodos = db_select_where_id s (t_id input) in
      if length existingTodos = 0 then (Inl (Error (toggle_not_found (t_id input))), s)
      else
        let currentTodo = hd existingTodos;
            (result, s') = db_update_where_id_returning s
               (\<lambda>r. r\<lparr>completed := \<not> completed currentTodo, updated_at := now\<rparr>) (t_id input)
        in (Inr (hd result), s'))"

text \<open>\<open>deleteTodo\<close> (handlers/delete\_todo.ts)\<close>

record DeleteResult =
  success :: bool

definition deleteTodo :: "Store \<Rightarrow> DeleteTodoInput \<Rightarrow> (error + DeleteResult) \<times> Store" where
  "deleteTodo s input =
     (let (result, s') = db_delete_where_id s (d_id input);
          success = nullish_coalesce (rowCount result) 0 > 0
      in (Inr \<lparr>success = success\<rparr>, s'))"

text \<open>
  \<open>updateTodo\<close>. Modelled from the spec: handlers/update\_todo.ts is not among the sources
  (its tests are). Section 4.3: fetch the existing record by \<open>id\<close>; if absent, fail with a
  "not found" condition; otherwise apply only the fields present in the input (a field left
  out is unchanged, \<open>description\<close> given as \<open>null\<close> overwrites with absence); always set
  \<open>updated_at\<close> to the current time; return the updated record. Section 7: the message is a
  generic not-found message. Its wording is not fixed by the spec; the tests only match
  \<open>/not found/i\<close>.
\<close>

definition update_not_found :: string where
  "update_not_found = ''Todo not found''"

definition apply_patch :: "UpdateTodoInput \<Rightarrow> Todo \<Rightarrow> Todo" where
  "apply_patch input r =
     r\<lparr>title := (case u_title input of None \<Rightarrow> title r | Some t \<Rightarrow> t),
       description := (case u_description input of
                         Undefined \<Rightarrow> description r | Null \<Rightarrow> None | Val d \<Rightarrow> Some d),
       completed := (case u_completed input of None \<Rightarrow> completed r | Some c \<Rightarrow> c)\<rparr>"

definition updateTodo :: "Store \<Rightarrow> timestamp \<Rightarrow> UpdateTodoInput \<Rightarrow> (error + Todo) \<times> Store" where
  "updateTodo s now input =
     (let existing = db_select_where_id s (u_id input) in
      if length existing = 0 then (Inl (Error update_not_found), s)
      else
        let (result, s') = db_update_where_id_returning s
               (\<lambda>r. (apply_patch input r)\<lparr>updated_at := now\<rparr>) (u_id input)
        in (Inr (hd result), s'))"

text \<open>
  \<open>getTodos\<close>. Modelled from the spec: handlers/get\_todos.ts is not among the sources (its
  tests are). Section 4.2: returns every record currently in the store, ordered by creation
  time, newest first. Records created at the same instant keep their insertion order (the
  spec leaves their order open).
\<close>

definition getTodos :: "Store \<Rightarrow> Todo list" where
  "getTodos s = sort_key (\<lambda>r. - created_at r) (rows s)"

section \<open>Requests in sequence\<close>

text \<open>
  Modelled from the spec: the transport boundary (section 2) invokes one handler per
  request. A run is a list of requests, each with the clock reading of its call, served one
  after the other on the same store.
\<close>

datatype request =
  Create CreateTodoInput
  | ReadAll
  | Update UpdateTodoInput
  | Toggle ToggleTodoInput
  | Delete DeleteTodoInput

datatype response = TodoOut Todo | TodosOut "Todo list" | DeleteOut DeleteResult

fun handle :: "Store \<Rightarrow> timestamp \<Rightarrow> request \<Rightarrow> (error + response) \<times> Store" where
  "handle s now (Create i) = (case createTodo s now i of (res, s') \<Rightarrow> (map_sum id TodoOut res, s'))"
| "handle s now ReadAll = (Inr (TodosOut (getTodos s)), s)"
| "handle s now (Update i) = (case updateTodo s now i of (res, s') \<Rightarrow> (map_sum id TodoOut res, s'))"
| "handle s now (Toggle i) = (case toggleTodo s now i of (res, s') \<Rightarrow> (map_sum id TodoOut res, s'))"
| "handle s now (Delete i) = (case deleteTodo s i of (res, s') \<Rightarrow> (map_sum id DeleteOut res, s'))"

fun run :: "Store \<Rightarrow> (timestamp \<times> request) list \<Rightarrow> (error + response) list \<times> Store" where
  "run s [] = ([], s)"
| "run s ((now, q) # qs) =
     (case handle s now q of (r, s') \<Rightarrow> (case run s' qs of (rs, s'') \<Rightarrow> (r # rs, s'')))"

text \<open>The keys handed out by the successful \<open>Create\<close> requests of a run, in order.\<close>

fun created_ids :: "(timestamp \<times> request) list \<Rightarrow> (error + response) list \<Rightarrow> int list" where
  "created_ids ((now, Create i) # qs) (Inr (TodoOut r) # rs) = id' r # created_ids qs rs"
| "created_ids (q # qs) (r # rs) = created_ids qs rs"
| "created_ids _ _ = []"

section \<open>Client fallback (App.tsx)\<close>

text \<open>
  The state of the component that the handlers touch: the list \<open>todos\<close>, the flag \<open>isDemo\<close>,
  and the entry of \<open>localStorage\<close> under \<open>demo-todos\<close> (\<open>None\<close> when unset; the JSON text is
  kept as the list it encodes). Each handler takes the outcome of its server call as an
  argument, and returns the error that escapes it, if any, with the new state.
\<close>

record ClientState =
  todos :: "Todo list"
  isDemo :: bool
  localStorage :: "Todo list option"

definition handleToggle ::
  "ClientState \<Rightarrow> timestamp \<Rightarrow> int \<Rightarrow> (error + Todo) \<Rightarrow> error option \<times> ClientState" where
  "handleToggle st now i server =
     (case server of
        Inr updatedTodo \<Rightarrow>
          (None, st\<lparr>todos := map (\<lambda>todo. if id' todo = i then updatedTodo else todo) (todos st)\<rparr>)
      | Inl e \<Rightarrow>
          (let updatedTodos = map (\<lambda>todo. if id' todo = i
                 then todo\<lparr>completed := \<not> completed todo, updated_at := now\<rparr>
                 else todo) (todos st);
               st' = st\<lparr>todos := updatedTodos\<rparr>
           in (None, if isDemo st then st'\<lparr>localStorage := Some updatedTodos\<rparr> else st')))"

definition handleDelete ::
  "ClientState \<Rightarrow> int \<Rightarrow> (error + DeleteResult) \<Rightarrow> error option \<times> ClientState" where
  "handleDelete st i server =
     (case server of
        Inr _ \<Rightarrow> (None, st\<lparr>todos := filter (\<lambda>todo. id' todo \<noteq> i) (todos st)\<rparr>)
      | Inl e \<Rightarrow>
          (let updatedTodos = filter (\<lambda>todo. id' todo \<noteq> i) (todos st);
               st' = st\<lparr>todos := updatedTodos\<rparr>
           in (None, if isDemo st then st'\<lparr>localStorage := Some updatedTodos\<rparr> else st')))"

text \<open>The \<open>onChange\<close> of the description \<open>Textarea\<close>: \<open>e.target.value || null\<close>.\<close>

definition description_onChange :: "CreateTodoInput \<Rightarrow> string \<Rightarrow> CreateTodoInput" where
  "description_onChange prev v = prev\<lparr>c_description := or_null (Val v)\<rparr>"

section \<open>State invariant\<close>

text \<open>
  The primary key is unique and below the sequence, and no row was updated before it was
  created.
\<close>

definition store_inv :: "Store \<Rightarrow> bool" where
  "store_inv s \<longleftrightarrow>
     distinct (map id' (rows s)) \<and>
     (\<forall>r \<in> set (rows s). id' r < next_id s) \<and>
     (\<forall>r \<in> set (rows s). created_at r \<le> updated_at r)"


text \<open>The row of a key, if the table has one.\<close>

definition find_todo :: "Store \<Rightarrow> int \<Rightarrow> Todo option" where
  "find_todo s i = (case db_select_where_id s i of [] \<Rightarrow> None | r # _ \<Rightarrow> Some r)"

text \<open>The store of the toggle tests after their insert: one row, not completed.\<close>

definition test_store :: Store where
  "test_store =
     \<lparr>rows = [\<lparr>id' = 1, title = ''Test Todo'', description = Some ''A todo for testing'',
               completed = False, created_at = 100, updated_at = 100\<rparr>],
      next_id = 2\<rparr>"

text \<open>The store of the ordering test of \<open>getTodos\<close>: three rows inserted ten milliseconds apart.\<close>

definition ordering_store :: Store where
  "ordering_store =
     \<lparr>rows =
        [\<lparr>id' = 1, title = ''Oldest Todo'', description = Some ''Created first'',
          completed = False, created_at = 100, updated_at = 100\<rparr>,
         \<lparr>id' = 2, title = ''Middle Todo'', description = Some ''Created second'',
          completed = False, created_at = 110, updated_at = 110\<rparr>,
         \<lparr>id' = 3, title = ''Newest Todo'', description = Some ''Created last'',
          completed = False, created_at = 120, updated_at = 120\<rparr>],
      next_id = 4\<rparr>"

section \<open>What each handler computes\<close>

declare show_nat.simps [simp del]

lemma createTodo_eq:
  "createTodo s now input =
     (let r = \<lparr>id' = next_id s, title = c_title input,
                description = (case c_description input of
                                 Val d \<Rightarrow> if d = [] then None else Some d | _ \<Rightarrow> None),
                completed = False, created_at = now, updated_at = now\<rparr>
      in (Inr r, s\<lparr>rows := rows s @ [r], next_id := next_id s + 1\<rparr>))"
  by (simp add: createTodo_def db_insert_returning_def or_null_def truthy_def to_column_def
      Let_def split: nullish.splits)

lemma select_empty_iff: "db_select_where_id s i = [] \<longleftrightarrow> i \<notin> id' ` set (rows s)"
  by (auto simp: db_select_where_id_def filter_empty_conv)

lemma find_todo_None_iff: "find_todo s i = None \<longleftrightarrow> i \<notin> id' ` set (rows s)"
  by (auto simp: find_todo_def select_empty_iff[symmetric] split: list.splits)

lemma find_todo_SomeD:
  assumes "find_todo s i = Some r"
  shows "r \<in> set (rows s) \<and> id' r = i"
proof -
  from assms obtain ys where "filter (\<lambda>x. id' x = i) (rows s) = r # ys"
    by (auto simp: find_todo_def db_select_where_id_def split: list.splits)
  then have "r \<in> set (filter (\<lambda>x. id' x = i) (rows s))"
    by simp
  then show ?thesis
    by simp
qed

lemma toggleTodo_missing:
  "t_id input \<notin> id' ` set (rows s) \<Longrightarrow>
     toggleTodo s now input = (Inl (Error (toggle_not_found (t_id input))), s)"
  by (simp add: toggleTodo_def select_empty_iff[symmetric])

lemma toggleTodo_found:
  "find_todo s (t_id input) = Some r \<Longrightarrow>
     toggleTodo s now input =
       (Inr (r\<lparr>completed := \<not> completed r, updated_at := now\<rparr>),
        s\<lparr>rows := map (\<lambda>x. if id' x = t_id input
                            then x\<lparr>completed := \<not> completed r, updated_at := now\<rparr> else x)
                     (rows s)\<rparr>)"
  by (auto simp: toggleTodo_def find_todo_def db_update_where_id_returning_def
      db_select_where_id_def Let_def split: list.splits)

lemma updateTodo_missing:
  "u_id input \<notin> id' ` set (rows s) \<Longrightarrow>
     updateTodo s now input = (Inl (Error update_not_found), s)"
  by (simp add: updateTodo_def select_empty_iff[symmetric])

lemma updateTodo_found:
  "find_todo s (u_id input) = Some r \<Longrightarrow>
     updateTodo s now input =
       (Inr ((apply_patch input r)\<lparr>updated_at := now\<rparr>),
        s\<lparr>rows := map (\<lambda>x. if id' x = u_id input
                            then (apply_patch input x)\<lparr>updated_at := now\<rparr> else x)
                     (rows s)\<rparr>)"
  by (auto simp: updateTodo_def find_todo_def db_update_where_id_returning_def
      db_select_where_id_def Let_def split: list.splits)

lemma deleteTodo_eq:
  "deleteTodo s input =
     (Inr \<lparr>success = (d_id input \<in> id' ` set (rows s))\<rparr>,
      s\<lparr>rows := filter (\<lambda>r. id' r \<noteq> d_id input) (rows s)\<rparr>)"
  by (auto simp: deleteTodo_def db_delete_where_id_def nullish_coalesce_def Let_def
      filter_empty_conv intro: rev_image_eqI)

lemma filter_id_map:
  "(\<And>x. id' (g x) = id' x) \<Longrightarrow>
     filter (\<lambda>x. id' x = j) (map g xs) = map g (filter (\<lambda>x. id' x = j) xs)"
  by (induction xs) auto

lemma find_todo_map:
  assumes "\<And>x. id' (g x) = id' x"
  shows "find_todo (s\<lparr>rows := map g (rows s)\<rparr>) j = map_option g (find_todo s j)"
  using filter_id_map [of g j "rows s", OF assms]
  by (simp add: find_todo_def db_select_where_id_def split: list.splits)

lemma find_todo_toggled:
  assumes "find_todo s i = Some r"
  shows "find_todo (snd (toggleTodo s now \<lparr>t_id = i\<rparr>)) i =
           Some (r\<lparr>completed := \<not> completed r, updated_at := now\<rparr>)"
proof -
  let ?g = "\<lambda>x. if id' x = i then x\<lparr>completed := \<not> completed r, updated_at := now\<rparr> else x"
  have "find_todo (s\<lparr>rows := map ?g (rows s)\<rparr>) i = map_option ?g (find_todo s i)"
    by (rule find_todo_map) simp
  with assms find_todo_SomeD [OF assms] show ?thesis
    by (simp add: toggleTodo_found)
qed

lemma run_Cons:
  "run s ((now, q) # qs) =
     (fst (handle s now q) # fst (run (snd (handle s now q)) qs),
      snd (run (snd (handle s now q)) qs))"
  by (simp split: prod.splits)

lemma handle_Toggle:
  "handle s now (Toggle i) =
     (map_sum id TodoOut (fst (toggleTodo s now i)), snd (toggleTodo s now i))"
  by (simp split: prod.splits)

lemma length_run: "length (fst (run s qs)) = length qs"
proof (induction qs arbitrary: s)
  case Nil
  show ?case by simp
next
  case (Cons q qs)
  obtain now rq where q: "q = (now, rq)"
    by (cases q)
  show ?case
    unfolding q run_Cons by (simp add: Cons.IH)
qed

lemma run_toggles_nth:
  "find_todo s i = Some r \<Longrightarrow> k < length ts \<Longrightarrow>
     fst (run s (map (\<lambda>t. (t, Toggle \<lparr>t_id = i\<rparr>)) ts)) ! k =
       Inr (TodoOut (r\<lparr>completed := (if even k then \<not> completed r else completed r),
                       updated_at := ts ! k\<rparr>))"
proof (induction ts arbitrary: s r k)
  case Nil
  then show ?case by simp
next
  case (Cons t ts)
  let ?r1 = "r\<lparr>completed := \<not> completed r, updated_at := t\<rparr>"
  let ?s1 = "snd (toggleTodo s t \<lparr>t_id = i\<rparr>)"
  have first: "fst (toggleTodo s t \<lparr>t_id = i\<rparr>) = Inr ?r1"
    using toggleTodo_found [of s "\<lparr>t_id = i\<rparr>" r t] Cons.prems(1) by simp
  have found: "find_todo ?s1 i = Some ?r1"
    by (rule find_todo_toggled [OF Cons.prems(1)])
  show ?case
  proof (cases k)
    case 0
    with first show ?thesis
      by (simp add: run_Cons handle_Toggle del: run.simps handle.simps)
  next
    case (Suc j)
    with Cons.prems have "j < length ts"
      by simp
    from Cons.IH [OF found this] Suc show ?thesis
      by (simp add: run_Cons handle_Toggle del: run.simps handle.simps)
  qed
qed

lemma less_10_cases: "(d::nat) < 10 \<Longrightarrow> d \<in> {0, 1, 2, 3, 4, 5, 6, 7, 8, 9}"
  by auto

lemma digit_char_inj: "a < 10 \<Longrightarrow> b < 10 \<Longrightarrow> digit_char a = digit_char b \<Longrightarrow> a = b"
  by (drule less_10_cases, drule less_10_cases) (auto simp: digit_char_def)

lemma digit_char_not_minus: "d < 10 \<Longrightarrow> digit_char d \<noteq> CHR ''-''"
  by (drule less_10_cases) (auto simp: digit_char_def)

lemma show_nat_not_Nil: "show_nat n \<noteq> []"
  by (subst show_nat.simps) simp

lemma show_nat_no_minus: "CHR ''-'' \<notin> set (show_nat n)"
proof (induction n rule: show_nat.induct)
  case (1 n)
  show ?case
  proof (cases "n < 10")
    case True
    then show ?thesis
      using digit_char_not_minus [of n] by (subst show_nat.simps) auto
  next
    case False
    with 1 digit_char_not_minus [of "n mod 10"] show ?thesis
      by (subst show_nat.simps) auto
  qed
qed

lemma show_nat_inj: "show_nat m = show_nat n \<Longrightarrow> m = n"
proof (induction m arbitrary: n rule: show_nat.induct)
  case (1 m)
  show ?case
  proof (cases "m < 10")
    case m: True
    show ?thesis
    proof (cases "n < 10")
      case True
      with m "1.prems" show ?thesis
        by (simp add: show_nat.simps [of m] show_nat.simps [of n] digit_char_inj)
    next
      case False
      with m "1.prems" show_nat_not_Nil [of "n div 10"] show ?thesis
        by (simp add: show_nat.simps [of m] show_nat.simps [of n] Cons_eq_append_conv)
    qed
  next
    case m: False
    show ?thesis
    proof (cases "n < 10")
      case True
      with m "1.prems" show_nat_not_Nil [of "m div 10"] show ?thesis
        by (simp add: show_nat.simps [of m] show_nat.simps [of n] append_eq_Cons_conv)
    next
      case False
      with m "1.prems" have eq: "show_nat (m div 10) = show_nat (n div 10)"
        and d: "digit_char (m mod 10) = digit_char (n mod 10)"
        by (simp_all add: show_nat.simps [of m] show_nat.simps [of n])
      from "1.IH" [OF m eq] have "m div 10 = n div 10" .
      moreover from d have "m mod 10 = n mod 10"
        by (auto intro: digit_char_inj)
      ultimately show ?thesis
        by (metis div_mult_mod_eq)
    qed
  qed
qed

lemma show_int_inj: "show_int i = show_int j \<Longrightarrow> i = j"
proof -
  assume eq: "show_int i = show_int j"
  have neg_pos: False if "a < 0" "0 \<le> b" "show_int a = show_int b" for a b
  proof -
    from that have "CHR ''-'' \<in> set (show_nat (nat b))"
      by (simp add: show_int_def) (metis list.set_intros(1))
    then show False
      by (simp add: show_nat_no_minus)
  qed
  show ?thesis
  proof (cases "i < 0")
    case i: True
    show ?thesis
    proof (cases "j < 0")
      case True
      with i eq have "nat (- i) = nat (- j)"
        by (simp add: show_int_def show_nat_inj)
      with i True show ?thesis by simp
    next
      case False
      with i eq neg_pos [of i j] show ?thesis by simp
    qed
  next
    case i: False
    show ?thesis
    proof (cases "j < 0")
      case True
      with i eq neg_pos [of j i] show ?thesis by simp
    next
      case False
      with i eq have "nat i = nat j"
        by (simp add: show_int_def show_nat_inj)
      with i False show ?thesis by simp
    qed
  qed
qed

lemma toggle_not_found_inj: "toggle_not_found i = toggle_not_found j \<Longrightarrow> i = j"
  by (simp add: toggle_not_found_def show_int_inj)

lemma find_todo_map_if:
  assumes "\<And>x. id' (g x) = id' x"
  shows "find_todo (s\<lparr>rows := map (\<lambda>x. if id' x = i then g x else x) (rows s)\<rparr>) j =
           (if j = i then map_option g (find_todo s j) else find_todo s j)"
proof -
  let ?h = "\<lambda>x. if id' x = i then g x else x"
  have h: "id' (?h x) = id' x" for x
    by (simp add: assms)
  have "find_todo (s\<lparr>rows := map ?h (rows s)\<rparr>) j = map_option ?h (find_todo s j)"
    by (rule find_todo_map) (rule h)
  then show ?thesis
    by (cases "find_todo s j") (auto dest: find_todo_SomeD)
qed

lemma filter_other_map_if:
  "filter (\<lambda>x. id' x \<noteq> i) (map (\<lambda>x. if id' x = i then g x else x) xs) =
     filter (\<lambda>x. id' x \<noteq> i) xs" if "\<And>x. id' (g x) = id' x"
  using that by (induction xs) auto

lemma id_apply_patch [simp]: "id' ((apply_patch input x)\<lparr>updated_at := now\<rparr>) = id' x"
  by (simp add: apply_patch_def)

lemma handle_Create:
  "handle s now (Create i) =
     (map_sum id TodoOut (fst (createTodo s now i)), snd (createTodo s now i))"
  by (simp split: prod.splits)

lemma handle_Update:
  "handle s now (Update i) =
     (map_sum id TodoOut (fst (updateTodo s now i)), snd (updateTodo s now i))"
  by (simp split: prod.splits)

lemma handle_Delete:
  "handle s now (Delete i) =
     (map_sum id DeleteOut (fst (deleteTodo s i)), snd (deleteTodo s i))"
  by (simp split: prod.splits)

text \<open>Toggle and Update rewrite rows in place, touching neither key nor creation time.\<close>

lemma toggleTodo_in_place:
  "\<exists>g. (\<forall>x. id' (g x) = id' x \<and> created_at (g x) = created_at x \<and>
              (updated_at (g x) = updated_at x \<or> updated_at (g x) = now)) \<and>
       snd (toggleTodo s now input) = s\<lparr>rows := map g (rows s)\<rparr>"
proof (cases "find_todo s (t_id input)")
  case None
  then have "snd (toggleTodo s now input) = s\<lparr>rows := map (\<lambda>x. x) (rows s)\<rparr>"
    using toggleTodo_missing [of input s now] by (simp add: find_todo_None_iff)
  then show ?thesis
    by (intro exI [of _ "\<lambda>x. x"]) simp
next
  case (Some r)
  let ?g = "\<lambda>x. if id' x = t_id input
                then x\<lparr>completed := \<not> completed r, updated_at := now\<rparr> else x"
  from toggleTodo_found [OF Some, of now]
  have "snd (toggleTodo s now input) = s\<lparr>rows := map ?g (rows s)\<rparr>"
    by simp
  then show ?thesis
    by (intro exI [of _ ?g]) simp
qed

lemma updateTodo_in_place:
  "\<exists>g. (\<forall>x. id' (g x) = id' x \<and> created_at (g x) = created_at x \<and>
              (updated_at (g x) = updated_at x \<or> updated_at (g x) = now)) \<and>
       snd (updateTodo s now input) = s\<lparr>rows := map g (rows s)\<rparr>"
proof (cases "find_todo s (u_id input)")
  case None
  then have "snd (updateTodo s now input) = s\<lparr>rows := map (\<lambda>x. x) (rows s)\<rparr>"
    using updateTodo_missing [of input s now] by (simp add: find_todo_None_iff)
  then show ?thesis
    by (intro exI [of _ "\<lambda>x. x"]) simp
next
  case (Some r)
  let ?g = "\<lambda>x. if id' x = u_id input
                then (apply_patch input x)\<lparr>updated_at := now\<rparr> else x"
  from updateTodo_found [OF Some, of now]
  have "snd (updateTodo s now input) = s\<lparr>rows := map ?g (rows s)\<rparr>"
    by simp
  then show ?thesis
    by (intro exI [of _ ?g]) (simp add: apply_patch_def)
qed




lemma next_id_handle: "next_id s \<le> next_id (snd (handle s now q))"
proof (cases q)
  case (Create i)
  then show ?thesis by (simp add: handle_Create createTodo_eq Let_def del: handle.simps)
next
  case ReadAll
  then show ?thesis by simp
next
  case (Update i)
  with updateTodo_in_place [of now s i] show ?thesis
    by (auto simp: handle_Update simp del: handle.simps)
next
  case (Toggle i)
  with toggleTodo_in_place [of now s i] show ?thesis
    by (auto simp: handle_Toggle simp del: handle.simps)
next
  case (Delete i)
  then show ?thesis by (simp add: handle_Delete deleteTodo_eq del: handle.simps)
qed

lemma created_ids_run:
  "(\<forall>i \<in> set (created_ids qs (fst (run s qs))). next_id s \<le> i) \<and>
   distinct (created_ids qs (fst (run s qs)))"
proof (induction qs arbitrary: s)
  case Nil
  show ?case by simp
next
  case (Cons q qs)
  obtain now rq where q: "q = (now, rq)"
    by (cases q)
  obtain res s' where h: "handle s now rq = (res, s')"
    by (cases "handle s now rq")
  have run_eq: "fst (run s (q # qs)) = res # fst (run s' qs)"
    unfolding q by (simp add: h split: prod.splits del: handle.simps)
  have mono: "next_id s \<le> next_id s'"
    using next_id_handle [of s now rq] h by simp
  note IH = Cons.IH [of s']
  have skip: ?case
    if "created_ids (q # qs) (fst (run s (q # qs))) = created_ids qs (fst (run s' qs))"
    using that IH mono by auto
  show ?case
  proof (cases rq)
    case (Create inp)
    from h obtain r0 where res: "res = Inr (TodoOut r0)" and r0: "id' r0 = next_id s"
      and n: "next_id s' = next_id s + 1"
      unfolding Create by (auto simp: createTodo_eq Let_def)
    have "created_ids (q # qs) (fst (run s (q # qs))) =
        created_ids ((now, Create inp) # qs) (Inr (TodoOut r0) # fst (run s' qs))"
      by (simp only: run_eq) (simp only: q Create res)
    then have "created_ids (q # qs) (fst (run s (q # qs))) =
        next_id s # created_ids qs (fst (run s' qs))"
      by (simp add: r0)
    with IH n show ?thesis
      by auto
  next
    case ReadAll
    show ?thesis
      by (rule skip) (simp only: run_eq, simp add: q ReadAll)
  next
    case (Update inp)
    show ?thesis
      by (rule skip) (simp only: run_eq, simp add: q Update)
  next
    case (Toggle inp)
    show ?thesis
      by (rule skip) (simp only: run_eq, simp add: q Toggle)
  next
    case (Delete inp)
    show ?thesis
      by (rule skip) (simp only: run_eq, simp add: q Delete)
  qed
qed

lemma store_inv_empty_store: "store_inv empty_store"
  by (simp add: store_inv_def empty_store_def)

lemma created_ids_example:
  "created_ids
     [(100, Create \<lparr>c_title = ''First Todo'', c_description = Val ''First description''\<rparr>),
      (101, Delete \<lparr>d_id = 1\<rparr>),
      (102, Create \<lparr>c_title = ''Second Todo'', c_description = Undefined\<rparr>)]
     (fst (run empty_store
       [(100, Create \<lparr>c_title = ''First Todo'', c_description = Val ''First description''\<rparr>),
        (101, Delete \<lparr>d_id = 1\<rparr>),
        (102, Create \<lparr>c_title = ''Second Todo'', c_description = Undefined\<rparr>)])) = [1, 2]"
  by (simp add: createTodo_eq deleteTodo_eq empty_store_def Let_def)




section \<open>Create and the description\<close>

text \<open>
  C1, as amended. Create stores and returns the description it was given when that is a
  non-empty string, and \<open>null\<close> when the description is left out, \<open>null\<close> or the empty
  string: absence and a non-empty text are told apart, the empty string is stored as
  absence. The form of the client turns an empty description into \<open>null\<close> before sending.
\<close>

theorem createTodo_description:
  "\<exists>r. createTodo s now input =
         (Inr r, s\<lparr>rows := rows s @ [r], next_id := next_id s + 1\<rparr>) \<and>
       description r =
         (case c_description input of
            Undefined \<Rightarrow> None
          | Null \<Rightarrow> None
          | Val d \<Rightarrow> if d = [] then None else Some d) \<and>
       c_description (description_onChange prev v) = (if v = [] then Null else Val v)"
  by (simp add: createTodo_eq Let_def description_onChange_def or_null_def truthy_def
      split: nullish.splits)

theorem createTodo_description_witness:
  "\<exists>r. createTodo empty_store 100 \<lparr>c_title = ''A'', c_description = Val ''x''\<rparr> =
         (Inr r, \<lparr>rows = [r], next_id = 2\<rparr>) \<and>
       description r = Some ''x'' \<and>
       c_description (description_onChange \<lparr>c_title = ''A'', c_description = Null\<rparr> ''x'') = Val ''x''"
  using createTodo_description [of empty_store 100
      "\<lparr>c_title = ''A'', c_description = Val ''x''\<rparr>"
      "\<lparr>c_title = ''A'', c_description = Null\<rparr>" "''x''"]
  by (simp add: empty_store_def)

text \<open>
  C1 as stated fails: a todo created with the empty string as description is stored and
  returned with description \<open>null\<close>.
\<close>

theorem createTodo_empty_description_counterexample:
  "createTodo empty_store 100 \<lparr>c_title = ''A'', c_description = Val ''''\<rparr> =
     (Inr \<lparr>id' = 1, title = ''A'', description = None, completed = False,
            created_at = 100, updated_at = 100\<rparr>,
      \<lparr>rows = [\<lparr>id' = 1, title = ''A'', description = None, completed = False,
                 created_at = 100, updated_at = 100\<rparr>], next_id = 2\<rparr>) \<and>
   \<not> (\<exists>r s'. createTodo empty_store 100 \<lparr>c_title = ''A'', c_description = Val ''''\<rparr> =
                (Inr r, s') \<and> description r = Some '''')"
  by (auto simp: createTodo_eq empty_store_def Let_def)

section \<open>Toggle\<close>

text \<open>
  C3. For a record \<open>r\<close> stored under the key \<open>i\<close>, Toggle returns \<open>r\<close> with \<open>completed\<close>
  negated and \<open>updated_at\<close> set to the clock reading, every other field as it was, and
  the table holds the same change; rows under other keys are untouched. Calls in sequence
  alternate: the \<open>k\<close>-th call, counted from 0, returns \<open>completed\<close> negated when \<open>k\<close> is
  even and as it was at the start when \<open>k\<close> is odd, so two calls restore it.
\<close>

theorem toggleTodo_flips:
  assumes "find_todo s i = Some r"
  shows "toggleTodo s now \<lparr>t_id = i\<rparr> =
           (Inr (r\<lparr>completed := \<not> completed r, updated_at := now\<rparr>),
            s\<lparr>rows := map (\<lambda>x. if id' x = i
                                then x\<lparr>completed := \<not> completed r, updated_at := now\<rparr>
                                else x) (rows s)\<rparr>) \<and>
         length (fst (run s (map (\<lambda>t. (t, Toggle \<lparr>t_id = i\<rparr>)) ts))) = length ts \<and>
         (\<forall>k < length ts.
            fst (run s (map (\<lambda>t. (t, Toggle \<lparr>t_id = i\<rparr>)) ts)) ! k =
              Inr (TodoOut (r\<lparr>completed := (if even k then \<not> completed r else completed r),
                              updated_at := ts ! k\<rparr>)))"
  using assms by (simp add: toggleTodo_found run_toggles_nth length_run)

theorem toggleTodo_flips_witness:
  "find_todo test_store 1 = Some (hd (rows test_store)) \<and>
   fst (toggleTodo test_store 101 \<lparr>t_id = 1\<rparr>) =
     Inr \<lparr>id' = 1, title = ''Test Todo'', description = Some ''A todo for testing'',
          completed = True, created_at = 100, updated_at = 101\<rparr> \<and>
   fst (run test_store (map (\<lambda>t. (t, Toggle \<lparr>t_id = 1\<rparr>)) [101, 102, 103])) ! 1 =
     Inr (TodoOut \<lparr>id' = 1, title = ''Test Todo'', description = Some ''A todo for testing'',
          completed = False, created_at = 100, updated_at = 102\<rparr>)"
proof -
  have h: "find_todo test_store 1 = Some (hd (rows test_store))"
    by (simp add: find_todo_def db_select_where_id_def test_store_def)
  note t = toggleTodo_flips [OF h, of 101 "[101, 102, 103]"]
  from t have a: "fst (toggleTodo test_store 101 \<lparr>t_id = 1\<rparr>) =
      Inr ((hd (rows test_store))\<lparr>completed := \<not> completed (hd (rows test_store)),
                                  updated_at := 101\<rparr>)"
    by simp
  from t have "\<forall>k < length [101, 102, 103 :: int].
      fst (run test_store (map (\<lambda>t. (t, Toggle \<lparr>t_id = 1\<rparr>)) [101, 102, 103])) ! k =
        Inr (TodoOut ((hd (rows test_store))
          \<lparr>completed := (if even k then \<not> completed (hd (rows test_store))
                          else completed (hd (rows test_store))),
           updated_at := [101, 102, 103] ! k\<rparr>))"
    by (elim conjE)
  then have "1 < length [101, 102, 103 :: int] \<longrightarrow>
      fst (run test_store (map (\<lambda>t. (t, Toggle \<lparr>t_id = 1\<rparr>)) [101, 102, 103])) ! 1 =
        Inr (TodoOut ((hd (rows test_store))
          \<lparr>completed := (if even (1::nat) then \<not> completed (hd (rows test_store))
                          else completed (hd (rows test_store))),
           updated_at := [101, 102, 103] ! 1\<rparr>))"
    by (rule spec)
  then have b: "fst (run test_store (map (\<lambda>t. (t, Toggle \<lparr>t_id = 1\<rparr>)) [101, 102, 103])) ! 1 =
        Inr (TodoOut ((hd (rows test_store))
          \<lparr>completed := completed (hd (rows test_store)), updated_at := 102\<rparr>))"
    by (simp del: run.simps)
  have c: "hd (rows test_store) =
      \<lparr>id' = 1, title = ''Test Todo'', description = Some ''A todo for testing'',
       completed = False, created_at = 100, updated_at = 100\<rparr>"
    by (simp add: test_store_def)
  from a b h show ?thesis
    unfolding c by simp
qed

section \<open>Delete\<close>

text \<open>
  C4. Delete never throws. Its \<open>success\<close> is true exactly when a row with the key existed;
  afterwards no row has the key, the other rows and the sequence are as before, and when
  no row matched the store is unchanged.
\<close>

theorem deleteTodo_success:
  "\<exists>s'. deleteTodo s input =
          (Inr \<lparr>success = (d_id input \<in> id' ` set (rows s))\<rparr>, s') \<and>
        rows s' = filter (\<lambda>r. id' r \<noteq> d_id input) (rows s) \<and>
        next_id s' = next_id s \<and>
        d_id input \<notin> id' ` set (rows s') \<and>
        (d_id input \<notin> id' ` set (rows s) \<longrightarrow> s' = s)"
proof -
  have "d_id input \<notin> id' ` set (rows s) \<Longrightarrow>
          filter (\<lambda>r. id' r \<noteq> d_id input) (rows s) = rows s"
    by (rule filter_True) force
  then show ?thesis
    by (auto simp: deleteTodo_eq image_iff)
qed

theorem deleteTodo_success_witness:
  "deleteTodo test_store \<lparr>d_id = 1\<rparr> = (Inr \<lparr>success = True\<rparr>, \<lparr>rows = [], next_id = 2\<rparr>) \<and>
   deleteTodo test_store \<lparr>d_id = 999999\<rparr> = (Inr \<lparr>success = False\<rparr>, test_store)"
  using deleteTodo_success [of test_store "\<lparr>d_id = 1\<rparr>"]
    deleteTodo_success [of test_store "\<lparr>d_id = 999999\<rparr>"]
  by (auto simp: test_store_def)

section \<open>Not found\<close>

text \<open>
  C5. When no row has the key \<open>i\<close>, Toggle fails with the message
  \<open>Todo with id i not found\<close>, the key printed in decimal, which tells the key apart from
  every other; Update fails with a message that does not depend on the key; and in both
  cases the store afterwards is the store before.
\<close>

theorem not_found_store_unchanged:
  assumes "i \<notin> id' ` set (rows s)"
  shows "toggleTodo s now \<lparr>t_id = i\<rparr> =
           (Inl (Error (''Todo with id '' @ show_int i @ '' not found'')), s) \<and>
         (\<forall>j. show_int j = show_int i \<longleftrightarrow> j = i) \<and>
         updateTodo s now (input\<lparr>u_id := i\<rparr>) = (Inl (Error ''Todo not found''), s)"
  using assms
  by (auto simp: toggleTodo_missing toggle_not_found_def updateTodo_missing update_not_found_def
      dest: show_int_inj)

theorem not_found_store_unchanged_witness:
  "99999 \<notin> id' ` set (rows test_store) \<and>
   toggleTodo test_store 101 \<lparr>t_id = 99999\<rparr> =
     (Inl (Error ''Todo with id 99999 not found''), test_store) \<and>
   updateTodo test_store 101
     \<lparr>u_id = 99999, u_title = Some ''Updated Title'', u_description = Undefined,
      u_completed = None\<rparr> = (Inl (Error ''Todo not found''), test_store)"
proof -
  have h: "99999 \<notin> id' ` set (rows test_store)"
    by (simp add: test_store_def)
  have d: "show_int 99999 = ''99999''"
    by (simp add: show_int_def show_nat.simps digit_char_def)
  from not_found_store_unchanged [OF h, of 101
      "\<lparr>u_id = 999, u_title = Some ''Updated Title'', u_description = Undefined,
        u_completed = None\<rparr>"] h
  show ?thesis
    by (simp add: d)
qed

section \<open>Update\<close>

text \<open>
  C2. For a record \<open>r\<close> stored under the key of the input, Update returns and stores \<open>r\<close>
  with exactly the fields present in the input replaced: a field left out keeps its
  value, \<open>description\<close> given as \<open>null\<close> becomes absent, \<open>id\<close> and \<open>created_at\<close> stay, and
  \<open>updated_at\<close> is the clock reading. Rows under other keys, the order of the keys and
  the sequence are as before.
\<close>

theorem updateTodo_applies_present_fields:
  assumes "find_todo s (u_id input) = Some r"
  shows "\<exists>r' s'. updateTodo s now input = (Inr r', s') \<and>
           title r' = (case u_title input of None \<Rightarrow> title r | Some t \<Rightarrow> t) \<and>
           description r' = (case u_description input of
                               Undefined \<Rightarrow> description r | Null \<Rightarrow> None | Val d \<Rightarrow> Some d) \<and>
           completed r' = (case u_completed input of None \<Rightarrow> completed r | Some c \<Rightarrow> c) \<and>
           id' r' = id' r \<and> created_at r' = created_at r \<and> updated_at r' = now \<and>
           find_todo s' (u_id input) = Some r' \<and>
           filter (\<lambda>x. id' x \<noteq> u_id input) (rows s') =
             filter (\<lambda>x. id' x \<noteq> u_id input) (rows s) \<and>
           map id' (rows s') = map id' (rows s) \<and>
           next_id s' = next_id s"
proof -
  let ?g = "\<lambda>x. (apply_patch input x)\<lparr>updated_at := now\<rparr>"
  let ?s' = "s\<lparr>rows := map (\<lambda>x. if id' x = u_id input then ?g x else x) (rows s)\<rparr>"
  have upd: "updateTodo s now input = (Inr (?g r), ?s')"
    by (rule updateTodo_found [OF assms])
  have found: "find_todo ?s' (u_id input) = Some (?g r)"
    using assms by (simp add: find_todo_map_if)
  have others: "filter (\<lambda>x. id' x \<noteq> u_id input) (rows ?s') =
      filter (\<lambda>x. id' x \<noteq> u_id input) (rows s)"
    by (simp add: filter_other_map_if)
  have ids: "map id' (rows ?s') = map id' (rows s)"
    by (simp add: comp_def if_distrib [of id'] cong: if_cong)
  have fields:
    "title (?g r) = (case u_title input of None \<Rightarrow> title r | Some t \<Rightarrow> t)"
    "description (?g r) = (case u_description input of
                             Undefined \<Rightarrow> description r | Null \<Rightarrow> None | Val d \<Rightarrow> Some d)"
    "completed (?g r) = (case u_completed input of None \<Rightarrow> completed r | Some c \<Rightarrow> c)"
    "id' (?g r) = id' r" "created_at (?g r) = created_at r" "updated_at (?g r) = now"
    by (simp_all add: apply_patch_def)
  from upd found others ids fields show ?thesis
    by (intro exI [of _ "?g r"] exI [of _ ?s'] conjI) simp_all
qed

theorem updateTodo_applies_present_fields_witness:
  "find_todo test_store 1 = Some (hd (rows test_store)) \<and>
   (\<exists>r' s'. updateTodo test_store 101
        \<lparr>u_id = 1, u_title = Some ''Updated Title'', u_description = Null,
         u_completed = None\<rparr> = (Inr r', s') \<and>
      title r' = ''Updated Title'' \<and> description r' = None \<and> completed r' = False \<and>
      id' r' = 1 \<and> created_at r' = 100 \<and> updated_at r' = 101 \<and>
      find_todo s' 1 = Some r')"
proof -
  have h: "find_todo test_store
      (u_id \<lparr>u_id = 1, u_title = Some ''Updated Title'', u_description = Null,
             u_completed = None\<rparr>) = Some (hd (rows test_store))"
    by (simp add: find_todo_def db_select_where_id_def test_store_def)
  have c: "hd (rows test_store) =
      \<lparr>id' = 1, title = ''Test Todo'', description = Some ''A todo for testing'',
       completed = False, created_at = 100, updated_at = 100\<rparr>"
    by (simp add: test_store_def)
  from updateTodo_applies_present_fields [OF h, of 101] h show ?thesis
    unfolding c by auto
qed

text \<open>
  C8, as amended. Every successful Update sets \<open>updated_at\<close> to the clock reading of the
  call, whatever the patch, and an Update that gives nothing but the key changes
  \<open>updated_at\<close> only. The new \<open>updated_at\<close> is strictly greater than the previous one
  exactly when the clock reading is later than the previous one.
\<close>

theorem updateTodo_sets_updated_at:
  assumes "find_todo s i = Some r"
  shows "(\<exists>r' s'. updateTodo s now (input\<lparr>u_id := i\<rparr>) = (Inr r', s') \<and>
            updated_at r' = now \<and>
            (updated_at r < updated_at r' \<longleftrightarrow> updated_at r < now) \<and>
            find_todo s' i = Some r') \<and>
         updateTodo s now \<lparr>u_id = i, u_title = None, u_description = Undefined,
                            u_completed = None\<rparr> =
           (Inr (r\<lparr>updated_at := now\<rparr>),
            s\<lparr>rows := map (\<lambda>x. if id' x = i then x\<lparr>updated_at := now\<rparr> else x) (rows s)\<rparr>)"
proof -
  let ?g = "\<lambda>x. (apply_patch (input\<lparr>u_id := i\<rparr>) x)\<lparr>updated_at := now\<rparr>"
  let ?s' = "s\<lparr>rows := map (\<lambda>x. if id' x = i then ?g x else x) (rows s)\<rparr>"
  have "updateTodo s now (input\<lparr>u_id := i\<rparr>) = (Inr (?g r), ?s')"
    using updateTodo_found [of s "input\<lparr>u_id := i\<rparr>" r now] assms by simp
  moreover have "find_todo ?s' i = Some (?g r)"
    using assms by (simp add: find_todo_map_if)
  moreover have "updated_at (?g r) = now"
    by simp
  ultimately have first: "\<exists>r' s'. updateTodo s now (input\<lparr>u_id := i\<rparr>) = (Inr r', s') \<and>
      updated_at r' = now \<and> (updated_at r < updated_at r' \<longleftrightarrow> updated_at r < now) \<and>
      find_todo s' i = Some r'"
    by (intro exI [of _ "?g r"] exI [of _ ?s'] conjI) simp_all
  have "updateTodo s now \<lparr>u_id = i, u_title = None, u_description = Undefined,
                            u_completed = None\<rparr> =
           (Inr (r\<lparr>updated_at := now\<rparr>),
            s\<lparr>rows := map (\<lambda>x. if id' x = i then x\<lparr>updated_at := now\<rparr> else x) (rows s)\<rparr>)"
    using updateTodo_found [of s "\<lparr>u_id = i, u_title = None, u_description = Undefined,
                            u_completed = None\<rparr>" r now] assms
    by (simp add: apply_patch_def)
  with first show ?thesis
    by blast
qed

theorem updateTodo_sets_updated_at_witness:
  "find_todo test_store 1 = Some (hd (rows test_store)) \<and>
   updated_at (hd (rows test_store)) < 101 \<and>
   (\<exists>r' s'. updateTodo test_store 101
        \<lparr>u_id = 1, u_title = Some ''Updated Title'', u_description = Undefined,
         u_completed = None\<rparr> = (Inr r', s') \<and>
      updated_at r' = 101 \<and> updated_at (hd (rows test_store)) < updated_at r' \<and>
      find_todo s' 1 = Some r') \<and>
   updateTodo test_store 101 \<lparr>u_id = 1, u_title = None, u_description = Undefined,
                               u_completed = None\<rparr> =
     (Inr \<lparr>id' = 1, title = ''Test Todo'', description = Some ''A todo for testing'',
           completed = False, created_at = 100, updated_at = 101\<rparr>,
      \<lparr>rows = [\<lparr>id' = 1, title = ''Test Todo'', description = Some ''A todo for testing'',
                completed = False, created_at = 100, updated_at = 101\<rparr>], next_id = 2\<rparr>)"
proof -
  have h: "find_todo test_store 1 = Some (hd (rows test_store))"
    by (simp add: find_todo_def db_select_where_id_def test_store_def)
  have t: "updated_at (hd (rows test_store)) < 101"
    by (simp add: test_store_def)
  note u = updateTodo_sets_updated_at [OF h, of 101
      "\<lparr>u_id = 1, u_title = Some ''Updated Title'', u_description = Undefined,
        u_completed = None\<rparr>"]
  from u t have a: "\<exists>r' s'. updateTodo test_store 101
        \<lparr>u_id = 1, u_title = Some ''Updated Title'', u_description = Undefined,
         u_completed = None\<rparr> = (Inr r', s') \<and>
      updated_at r' = 101 \<and> updated_at (hd (rows test_store)) < updated_at r' \<and>
      find_todo s' 1 = Some r'"
    by auto
  from u have b: "updateTodo test_store 101 \<lparr>u_id = 1, u_title = None, u_description = Undefined,
                               u_completed = None\<rparr> =
     (Inr \<lparr>id' = 1, title = ''Test Todo'', description = Some ''A todo for testing'',
           completed = False, created_at = 100, updated_at = 101\<rparr>,
      \<lparr>rows = [\<lparr>id' = 1, title = ''Test Todo'', description = Some ''A todo for testing'',
                completed = False, created_at = 100, updated_at = 101\<rparr>], next_id = 2\<rparr>)"
    by (simp add: test_store_def)
  from h t a b show ?thesis
    by (intro conjI)
qed

text \<open>
  C8 as stated fails: an Update whose clock reading equals the stored \<open>updated_at\<close> (a
  second change within the same millisecond) succeeds and leaves \<open>updated_at\<close> as it was,
  not strictly greater.
\<close>

theorem updateTodo_same_tick_counterexample:
  "find_todo test_store 1 =
     Some \<lparr>id' = 1, title = ''Test Todo'', description = Some ''A todo for testing'',
           completed = False, created_at = 100, updated_at = 100\<rparr> \<and>
   updateTodo test_store 100 \<lparr>u_id = 1, u_title = None, u_description = Undefined,
                               u_completed = None\<rparr> =
     (Inr \<lparr>id' = 1, title = ''Test Todo'', description = Some ''A todo for testing'',
           completed = False, created_at = 100, updated_at = 100\<rparr>, test_store) \<and>
   \<not> (\<exists>r r' s'. find_todo test_store 1 = Some r \<and>
          updateTodo test_store 100 \<lparr>u_id = 1, u_title = None, u_description = Undefined,
                                      u_completed = None\<rparr> = (Inr r', s') \<and>
          updated_at r < updated_at r')"
proof -
  have f: "find_todo test_store 1 =
     Some \<lparr>id' = 1, title = ''Test Todo'', description = Some ''A todo for testing'',
           completed = False, created_at = 100, updated_at = 100\<rparr>"
    by (simp add: find_todo_def db_select_where_id_def test_store_def)
  have u: "updateTodo test_store 100 \<lparr>u_id = 1, u_title = None, u_description = Undefined,
                               u_completed = None\<rparr> =
     (Inr \<lparr>id' = 1, title = ''Test Todo'', description = Some ''A todo for testing'',
           completed = False, created_at = 100, updated_at = 100\<rparr>, test_store)"
    using updateTodo_found [of test_store "\<lparr>u_id = 1, u_title = None, u_description = Undefined,
                               u_completed = None\<rparr>" _ 100] f
    by (simp add: apply_patch_def test_store_def)
  show ?thesis
    unfolding f u by simp
qed

section \<open>Create: defaults and fresh keys\<close>

text \<open>
  C6. On a store that satisfies the invariant, Create returns and appends a record with
  \<open>completed\<close> false, \<open>created_at\<close> and \<open>updated_at\<close> both the clock reading, and the key
  taken from the sequence, which no row of the table has. Over any run of requests the
  keys handed out by Create are pairwise different and different from every key the table
  held at the start, whatever was deleted in between.
\<close>

theorem createTodo_fresh:
  assumes "store_inv s"
  shows "(\<exists>r. createTodo s now input =
               (Inr r, s\<lparr>rows := rows s @ [r], next_id := next_id s + 1\<rparr>) \<and>
             completed r = False \<and> created_at r = now \<and> updated_at r = now \<and>
             id' r = next_id s \<and> id' r \<notin> id' ` set (rows s)) \<and>
         distinct (created_ids qs (fst (run s qs))) \<and>
         set (created_ids qs (fst (run s qs))) \<inter> id' ` set (rows s) = {}"
proof -
  from assms have below: "\<forall>x \<in> set (rows s). id' x < next_id s"
    by (simp add: store_inv_def)
  then have "next_id s \<notin> id' ` set (rows s)"
    by auto
  then have "\<exists>r. createTodo s now input =
               (Inr r, s\<lparr>rows := rows s @ [r], next_id := next_id s + 1\<rparr>) \<and>
             completed r = False \<and> created_at r = now \<and> updated_at r = now \<and>
             id' r = next_id s \<and> id' r \<notin> id' ` set (rows s)"
    by (simp add: createTodo_eq Let_def)
  moreover from created_ids_run [of qs s] below
  have "set (created_ids qs (fst (run s qs))) \<inter> id' ` set (rows s) = {}"
    by fastforce
  ultimately show ?thesis
    using created_ids_run [of qs s] by blast
qed

theorem createTodo_fresh_witness:
  "store_inv empty_store \<and>
   (\<exists>r. createTodo empty_store 100
          \<lparr>c_title = ''Test Todo'', c_description = Val ''A todo for testing''\<rparr> =
            (Inr r, \<lparr>rows = [r], next_id = 2\<rparr>) \<and>
        completed r = False \<and> created_at r = 100 \<and> updated_at r = 100 \<and> id' r = 1) \<and>
   distinct (created_ids
     [(100, Create \<lparr>c_title = ''First Todo'', c_description = Val ''First description''\<rparr>),
      (101, Delete \<lparr>d_id = 1\<rparr>),
      (102, Create \<lparr>c_title = ''Second Todo'', c_description = Undefined\<rparr>)]
     (fst (run empty_store
       [(100, Create \<lparr>c_title = ''First Todo'', c_description = Val ''First description''\<rparr>),
        (101, Delete \<lparr>d_id = 1\<rparr>),
        (102, Create \<lparr>c_title = ''Second Todo'', c_description = Undefined\<rparr>)]))) \<and>
   created_ids
     [(100, Create \<lparr>c_title = ''First Todo'', c_description = Val ''First description''\<rparr>),
      (101, Delete \<lparr>d_id = 1\<rparr>),
      (102, Create \<lparr>c_title = ''Second Todo'', c_description = Undefined\<rparr>)]
     (fst (run empty_store
       [(100, Create \<lparr>c_title = ''First Todo'', c_description = Val ''First description''\<rparr>),
        (101, Delete \<lparr>d_id = 1\<rparr>),
        (102, Create \<lparr>c_title = ''Second Todo'', c_description = Undefined\<rparr>)])) = [1, 2]"
proof -
  note t = createTodo_fresh [OF store_inv_empty_store, of 100
    "\<lparr>c_title = ''Test Todo'', c_description = Val ''A todo for testing''\<rparr>"
    "[(100, Create \<lparr>c_title = ''First Todo'', c_description = Val ''First description''\<rparr>),
      (101, Delete \<lparr>d_id = 1\<rparr>),
      (102, Create \<lparr>c_title = ''Second Todo'', c_description = Undefined\<rparr>)]"]
  from t have a: "\<exists>r. createTodo empty_store 100
          \<lparr>c_title = ''Test Todo'', c_description = Val ''A todo for testing''\<rparr> =
            (Inr r, \<lparr>rows = [r], next_id = 2\<rparr>) \<and>
        completed r = False \<and> created_at r = 100 \<and> updated_at r = 100 \<and> id' r = 1"
    by (simp add: empty_store_def)
  from t have b: "distinct (created_ids
     [(100, Create \<lparr>c_title = ''First Todo'', c_description = Val ''First description''\<rparr>),
      (101, Delete \<lparr>d_id = 1\<rparr>),
      (102, Create \<lparr>c_title = ''Second Todo'', c_description = Undefined\<rparr>)]
     (fst (run empty_store
       [(100, Create \<lparr>c_title = ''First Todo'', c_description = Val ''First description''\<rparr>),
        (101, Delete \<lparr>d_id = 1\<rparr>),
        (102, Create \<lparr>c_title = ''Second Todo'', c_description = Undefined\<rparr>)])))"
    by (elim conjE)
  from a b store_inv_empty_store created_ids_example show ?thesis
    by (intro conjI)
qed

section \<open>The invariant\<close>




section \<open>Read-All\<close>

text \<open>
  C7. Read-All returns exactly the rows of the table, each as often as it is there, in
  descending order of \<open>created_at\<close>; on an empty table it returns the empty list; and it
  leaves the store as it was.
\<close>

theorem getTodos_newest_first:
  "mset (getTodos s) = mset (rows s) \<and>
   sorted_wrt (\<lambda>a b. created_at a \<ge> created_at b) (getTodos s) \<and>
   getTodos (s\<lparr>rows := []\<rparr>) = [] \<and>
   handle s now ReadAll = (Inr (TodosOut (getTodos s)), s)"
proof -
  have "sorted (map (\<lambda>r. - created_at r) (getTodos s))"
    unfolding getTodos_def by (rule sorted_sort_key)
  then have "sorted_wrt (\<lambda>a b. - created_at a \<le> - created_at b) (getTodos s)"
    by (simp add: sorted_map)
  then have "sorted_wrt (\<lambda>a b. created_at a \<ge> created_at b) (getTodos s)"
    by simp
  then show ?thesis
    by (simp add: getTodos_def)
qed

theorem getTodos_newest_first_witness:
  "mset (getTodos ordering_store) = mset (rows ordering_store) \<and>
   sorted_wrt (\<lambda>a b. created_at a \<ge> created_at b) (getTodos ordering_store) \<and>
   map title (getTodos ordering_store) = [''Newest Todo'', ''Middle Todo'', ''Oldest Todo''] \<and>
   getTodos empty_store = []"
proof -
  have e: "empty_store\<lparr>rows := []\<rparr> = empty_store"
    by (simp add: empty_store_def)
  have t: "map title (getTodos ordering_store) =
      [''Newest Todo'', ''Middle Todo'', ''Oldest Todo'']"
    by (simp add: getTodos_def ordering_store_def)
  from getTodos_newest_first [of ordering_store 0] getTodos_newest_first [of empty_store 0] t
  show ?thesis
    unfolding e by blast
qed

section \<open>The fallback of the client\<close>

text \<open>
  C10. When the server call has failed and the key is not in the list of the client,
  \<open>handleToggle\<close> and \<open>handleDelete\<close> let no error escape and leave the list and the flag as
  they were; in demo mode they write that same list to local storage. The server's Toggle
  on a table with the same rows fails with its not-found error.
\<close>

theorem fallback_missing_id:
  assumes "i \<notin> id' ` set (todos st)"
  shows "handleToggle st now i (Inl e) =
           (None, st\<lparr>localStorage := if isDemo st then Some (todos st) else localStorage st\<rparr>) \<and>
         handleDelete st i (Inl e) =
           (None, st\<lparr>localStorage := if isDemo st then Some (todos st) else localStorage st\<rparr>) \<and>
         toggleTodo (s\<lparr>rows := todos st\<rparr>) now \<lparr>t_id = i\<rparr> =
           (Inl (Error (toggle_not_found i)), s\<lparr>rows := todos st\<rparr>)"
proof -
  from assms have same: "id' x \<noteq> i" if "x \<in> set (todos st)" for x
    using that by auto
  have m: "map (\<lambda>todo. if id' todo = i
                then todo\<lparr>completed := \<not> completed todo, updated_at := now\<rparr>
                else todo) (todos st) = todos st"
    by (rule map_idI) (simp add: same)
  have f: "filter (\<lambda>todo. id' todo \<noteq> i) (todos st) = todos st"
    by (rule filter_True) (simp add: same)
  have "toggleTodo (s\<lparr>rows := todos st\<rparr>) now \<lparr>t_id = i\<rparr> =
           (Inl (Error (toggle_not_found i)), s\<lparr>rows := todos st\<rparr>)"
    using toggleTodo_missing [of "\<lparr>t_id = i\<rparr>" "s\<lparr>rows := todos st\<rparr>" now] assms by simp
  then show ?thesis
    by (simp add: handleToggle_def handleDelete_def m f Let_def)
qed

theorem fallback_missing_id_witness:
  "99 \<notin> id' ` set (todos \<lparr>todos = rows test_store, isDemo = True, localStorage = None\<rparr>) \<and>
   handleToggle \<lparr>todos = rows test_store, isDemo = True, localStorage = None\<rparr> 101 99
       (Inl (Error ''Failed to fetch'')) =
     (None, \<lparr>todos = rows test_store, isDemo = True, localStorage = Some (rows test_store)\<rparr>) \<and>
   handleDelete \<lparr>todos = rows test_store, isDemo = False, localStorage = None\<rparr> 99
       (Inl (Error ''Failed to fetch'')) =
     (None, \<lparr>todos = rows test_store, isDemo = False, localStorage = None\<rparr>) \<and>
   fst (toggleTodo test_store 101 \<lparr>t_id = 99\<rparr>) = Inl (Error ''Todo with id 99 not found'')"
proof -
  have h: "99 \<notin> id' ` set (todos \<lparr>todos = rows test_store, isDemo = b, localStorage = None\<rparr>)"
    for b
    by (simp add: test_store_def)
  have d: "toggle_not_found 99 = ''Todo with id 99 not found''"
    by (simp add: toggle_not_found_def show_int_def show_nat.simps digit_char_def)
  have r: "test_store\<lparr>rows := rows test_store\<rparr> = test_store"
    by simp
  from fallback_missing_id [OF h [of True], of 101 "Error ''Failed to fetch''" test_store]
    fallback_missing_id [OF h [of False], of 101 "Error ''Failed to fetch''" test_store]
    h [of True]
  show ?thesis
    by (simp add: d)
qed

end
